theory Spec2Isabelle
  imports Main "HOL-Library.Word" "HOL-Library.Sublist"
begin

unbundle bit_operations_syntax

section \<open>JavaScript values used by \<^verbatim>\<open>src/index.ts\<close>\<close>

text \<open>
  A JavaScript string is a sequence of UTF-16 code units, a \<^verbatim>\<open>Buffer\<close> a sequence of
  bytes. \<open>lit\<close> turns an ASCII literal into its code units.
\<close>

type_synonym code_unit = "16 word"
type_synonym js_string = "code_unit list"
type_synonym byte = "8 word"
type_synonym buffer = "byte list"

definition lit :: "string \<Rightarrow> js_string" where
  "lit s = map (\<lambda>c. of_nat (of_char c)) s"

text \<open>
  A thrown value is an instance of \<^verbatim>\<open>Error\<close>, which has a \<^verbatim>\<open>message\<close>, or any other
  value. The handlers only ever ask \<^verbatim>\<open>error instanceof Error\<close> and read \<^verbatim>\<open>error.message\<close>.
\<close>

datatype thrown = Error js_string | NonError

datatype format = Svg | Png | Pdf

fun format_string :: "format \<Rightarrow> js_string" where
  "format_string Svg = lit ''svg''"
| "format_string Png = lit ''png''"
| "format_string Pdf = lit ''pdf''"

subsection \<open>\<^verbatim>\<open>String.prototype.includes\<close>, \<^verbatim>\<open>split\<close>, \<^verbatim>\<open>trim\<close> and indexing\<close>

fun includes_js :: "'a list \<Rightarrow> 'a list \<Rightarrow> bool" where
  "includes_js [] pat = (pat = [])"
| "includes_js (x # xs) pat = (prefix pat (x # xs) \<or> includes_js xs pat)"

text \<open>
  \<^verbatim>\<open>S.split(sep)\<close> without a limit: scan from the left for the next occurrence of the
  separator, cut there and go on after it (occurrences do not overlap); what is left at
  the end is the last piece. An empty separator cuts between all code units.
\<close>

function split_loop :: "'a list \<Rightarrow> 'a list \<Rightarrow> 'a list \<Rightarrow> 'a list list" where
  "split_loop sep acc [] = [acc]"
| "split_loop sep acc (x # xs) =
     (if sep \<noteq> [] \<and> prefix sep (x # xs)
      then acc # split_loop sep [] (drop (length sep) (x # xs))
      else split_loop sep (acc @ [x]) xs)"
  by pat_completeness auto
termination
  by (relation "measure (\<lambda>(sep, acc, s). length s)") auto

definition split_js :: "'a list \<Rightarrow> 'a list \<Rightarrow> 'a list list" where
  "split_js s sep = (if sep = [] then map (\<lambda>c. [c]) s else split_loop sep [] s)"

text \<open>
  \<^verbatim>\<open>trim\<close> removes WhiteSpace and LineTerminator code units (ECMAScript 12.2, 12.3) from
  both ends.
\<close>

definition is_white_space :: "code_unit \<Rightarrow> bool" where
  "is_white_space c \<longleftrightarrow>
     c = 0x0009 \<or> c = 0x000A \<or> c = 0x000B \<or> c = 0x000C \<or> c = 0x000D \<or> c = 0x0020 \<or>
     c = 0x00A0 \<or> c = 0x1680 \<or> (0x2000 \<le> c \<and> c \<le> 0x200A) \<or> c = 0x2028 \<or> c = 0x2029 \<or>
     c = 0x202F \<or> c = 0x205F \<or> c = 0x3000 \<or> c = 0xFEFF"

definition trim_js :: "js_string \<Rightarrow> js_string" where
  "trim_js s = rev (dropWhile is_white_space (rev (dropWhile is_white_space s)))"

text \<open>\<^verbatim>\<open>xs[i]\<close>: \<^verbatim>\<open>undefined\<close> (here \<open>None\<close>) out of range.\<close>

definition at_index :: "'a list \<Rightarrow> nat \<Rightarrow> 'a option" where
  "at_index xs i = (if i < length xs then Some (xs ! i) else None)"

text \<open>Calling a method on \<^verbatim>\<open>undefined\<close> throws a \<^verbatim>\<open>TypeError\<close>, an instance of \<^verbatim>\<open>Error\<close>.\<close>

definition TypeError :: thrown where
  "TypeError = Error (lit ''Cannot read properties of undefined'')"

subsection \<open>Numbers and buffers as text\<close>

text \<open>
  The timestamp is an integral number of milliseconds within the range of \<^verbatim>\<open>Date\<close>, so a
  template literal prints it in plain decimal notation.
\<close>

function digits_of :: "nat \<Rightarrow> js_string" where
  "digits_of n =
     (if n < 10 then [of_nat (48 + n)] else digits_of (n div 10) @ [of_nat (48 + n mod 10)])"
  by pat_completeness auto
termination
  by (relation "measure (\<lambda>n. n)") auto

definition number_toString :: "int \<Rightarrow> js_string" where
  "number_toString t =
     (if t < 0 then lit ''-'' @ digits_of (nat (- t)) else digits_of (nat t))"

text \<open>\<^verbatim>\<open>buf.toString('base64')\<close>: RFC 4648 with padding.\<close>

definition base64_char :: "nat \<Rightarrow> code_unit" where
  "base64_char i =
     lit ''ABCDEFGHIJKLMNOPQRSTUVWXYZabcdefghijklmnopqrstuvwxyz0123456789+/'' ! i"

fun toString_base64 :: "buffer \<Rightarrow> js_string" where
  "toString_base64 (a # b # c # rest) =
     (let n = unat a * 65536 + unat b * 256 + unat c
      in [base64_char (n div 262144), base64_char (n div 4096 mod 64),
          base64_char (n div 64 mod 64), base64_char (n mod 64)] @ toString_base64 rest)"
| "toString_base64 [a, b] =
     (let n = unat a * 65536 + unat b * 256
      in [base64_char (n div 262144), base64_char (n div 4096 mod 64),
          base64_char (n div 64 mod 64), 0x3D])"
| "toString_base64 [a] =
     (let n = unat a * 65536
      in [base64_char (n div 262144), base64_char (n div 4096 mod 64), 0x3D, 0x3D])"
| "toString_base64 [] = []"

text \<open>
  \<^verbatim>\<open>buf.toString('utf8')\<close>: the UTF-8 decoder of the Encoding Standard. The state is the
  code point collected so far, the number of continuation bytes still needed and the
  range allowed for the next one. An ill-formed sequence gives one U+FFFD and the byte
  that broke it is read again as the start of a sequence. No byte order mark is removed.
\<close>

type_synonym utf8_state = "nat \<times> nat \<times> nat \<times> nat"

definition utf8_idle :: utf8_state where
  "utf8_idle = (0, 0, 0x80, 0xBF)"

definition utf8_start :: "nat \<Rightarrow> nat list \<times> utf8_state" where
  "utf8_start b =
     (if b \<le> 0x7F then ([b], utf8_idle)
      else if 0xC2 \<le> b \<and> b \<le> 0xDF then ([], (b mod 32, 1, 0x80, 0xBF))
      else if 0xE0 \<le> b \<and> b \<le> 0xEF then
        ([], (b mod 16, 2, if b = 0xE0 then 0xA0 else 0x80, if b = 0xED then 0x9F else 0xBF))
      else if 0xF0 \<le> b \<and> b \<le> 0xF4 then
        ([], (b mod 8, 3, if b = 0xF0 then 0x90 else 0x80, if b = 0xF4 then 0x8F else 0xBF))
      else ([0xFFFD], utf8_idle))"

fun utf8_step :: "utf8_state \<Rightarrow> nat \<Rightarrow> nat list \<times> utf8_state" where
  "utf8_step (cp, needed, lo, hi) b =
     (if needed = 0 then utf8_start b
      else if lo \<le> b \<and> b \<le> hi then
        (if needed = 1 then ([cp * 64 + b mod 64], utf8_idle)
         else ([], (cp * 64 + b mod 64, needed - 1, 0x80, 0xBF)))
      else (case utf8_start b of (out, st) \<Rightarrow> (0xFFFD # out, st)))"

fun utf8_loop :: "utf8_state \<Rightarrow> buffer \<Rightarrow> nat list" where
  "utf8_loop (cp, needed, lo, hi) [] = (if needed = 0 then [] else [0xFFFD])"
| "utf8_loop st (b # bs) = (case utf8_step st (unat b) of (out, st') \<Rightarrow> out @ utf8_loop st' bs)"

definition utf16_units :: "nat \<Rightarrow> js_string" where
  "utf16_units cp =
     (if cp < 0x10000 then [of_nat cp]
      else [of_nat (0xD800 + (cp - 0x10000) div 0x400), of_nat (0xDC00 + (cp - 0x10000) mod 0x400)])"

definition toString_utf8 :: "buffer \<Rightarrow> js_string" where
  "toString_utf8 buf = concat (map utf16_units (utf8_loop utf8_idle buf))"

text \<open>
  The encoder behind \<^verbatim>\<open>fs.writeFile(path, text, 'utf8')\<close>: a surrogate pair is one code
  point, a lone surrogate is written as U+FFFD.
\<close>

definition utf8_bytes :: "nat \<Rightarrow> buffer" where
  "utf8_bytes cp =
     (if cp < 0x80 then [of_nat cp]
      else if cp < 0x800 then [of_nat (0xC0 + cp div 64), of_nat (0x80 + cp mod 64)]
      else if cp < 0x10000 then
        [of_nat (0xE0 + cp div 4096), of_nat (0x80 + cp div 64 mod 64), of_nat (0x80 + cp mod 64)]
      else
        [of_nat (0xF0 + cp div 262144), of_nat (0x80 + cp div 4096 mod 64),
         of_nat (0x80 + cp div 64 mod 64), of_nat (0x80 + cp mod 64)])"

definition is_lead :: "code_unit \<Rightarrow> bool" where
  "is_lead c \<longleftrightarrow> 0xD800 \<le> c \<and> c \<le> 0xDBFF"

definition is_trail :: "code_unit \<Rightarrow> bool" where
  "is_trail c \<longleftrightarrow> 0xDC00 \<le> c \<and> c \<le> 0xDFFF"

fun utf8_encode :: "js_string \<Rightarrow> buffer" where
  "utf8_encode [] = []"
| "utf8_encode [c] = utf8_bytes (if is_lead c \<or> is_trail c then 0xFFFD else unat c)"
| "utf8_encode (c # d # rest) =
     (if is_lead c \<and> is_trail d
      then utf8_bytes (0x10000 + (unat c - 0xD800) * 0x400 + (unat d - 0xDC00)) @ utf8_encode rest
      else utf8_bytes (if is_lead c \<or> is_trail c then 0xFFFD else unat c) @ utf8_encode (d # rest))"

subsection \<open>\<^verbatim>\<open>JSON.stringify\<close> of an object whose properties are strings\<close>

definition hex_digit :: "nat \<Rightarrow> code_unit" where
  "hex_digit i = lit ''0123456789abcdef'' ! i"

definition unicode_escape :: "code_unit \<Rightarrow> js_string" where
  "unicode_escape c =
     [0x5C, 0x75, hex_digit (unat c div 4096), hex_digit (unat c div 256 mod 16),
      hex_digit (unat c div 16 mod 16), hex_digit (unat c mod 16)]"

definition quote_unit :: "code_unit \<Rightarrow> js_string" where
  "quote_unit c =
     (if c = 0x08 then [0x5C, 0x62]
      else if c = 0x09 then [0x5C, 0x74]
      else if c = 0x0A then [0x5C, 0x6E]
      else if c = 0x0C then [0x5C, 0x66]
      else if c = 0x0D then [0x5C, 0x72]
      else if c = 0x22 then [0x5C, 0x22]
      else if c = 0x5C then [0x5C, 0x5C]
      else if c < 0x20 \<or> is_lead c \<or> is_trail c then unicode_escape c
      else [c])"

fun quote_loop :: "js_string \<Rightarrow> js_string" where
  "quote_loop [] = []"
| "quote_loop [c] = quote_unit c"
| "quote_loop (c # d # rest) =
     (if is_lead c \<and> is_trail d then c # d # quote_loop rest
      else quote_unit c @ quote_loop (d # rest))"

definition QuoteJSONString :: "js_string \<Rightarrow> js_string" where
  "QuoteJSONString s = [0x22] @ quote_loop s @ [0x22]"

fun json_members :: "(js_string \<times> js_string) list \<Rightarrow> js_string" where
  "json_members [] = []"
| "json_members [(k, v)] = QuoteJSONString k @ [0x3A] @ QuoteJSONString v"
| "json_members ((k, v) # p # ps) =
     QuoteJSONString k @ [0x3A] @ QuoteJSONString v @ [0x2C] @ json_members (p # ps)"

definition JSON_stringify :: "(js_string \<times> js_string) list \<Rightarrow> js_string" where
  "JSON_stringify props = [0x7B] @ json_members props @ [0x7D]"

section \<open>The process and its collaborators\<close>

text \<open>
  The state a call can see or change: the two process-wide write functions
  \<^verbatim>\<open>process.stdout.write\<close> and \<^verbatim>\<open>process.stderr.write\<close>, the files of the file system
  and the system clock in milliseconds. \<open>Noop\<close> is the function \<^verbatim>\<open>() => true\<close> that
  \<^verbatim>\<open>render\<close> installs; \<open>Write n\<close> is any other function value.
\<close>

datatype write_fn = Write nat | Noop

record world =
  stdout_write :: write_fn
  stderr_write :: write_fn
  files :: "js_string \<rightharpoonup> buffer"
  clock :: int

text \<open>An awaited call either throws or returns, and leaves a new state.\<close>

type_synonym 'a effect = "world \<Rightarrow> (thrown + 'a) \<times> world"

record run_options =
  puppeteer_args :: "js_string list"
  headless :: js_string
  outputFormat :: "format option"
  quiet :: bool

text \<open>
  The collaborators are not code of this repository: \<^verbatim>\<open>os.tmpdir\<close>, \<^verbatim>\<open>path.join\<close>, the
  \<^verbatim>\<open>fs.promises\<close> functions and \<^verbatim>\<open>run\<close> of the Mermaid CLI. Every function below takes them
  as a parameter, so a theorem about all hosts covers every way in which they may fail or
  change the state. \<open>writeFile\<close> is only ever called with the encoding \<^verbatim>\<open>'utf8'\<close>,
  \<open>readFile\<close> with none, so it returns the bytes of the file.
\<close>

record host =
  tmpdir :: js_string
  path_join :: "js_string \<Rightarrow> js_string \<Rightarrow> js_string"
  writeFile :: "js_string \<Rightarrow> js_string \<Rightarrow> unit effect"
  run :: "js_string \<Rightarrow> js_string \<Rightarrow> run_options \<Rightarrow> unit effect"
  readFile :: "js_string \<Rightarrow> buffer effect"
  unlink :: "js_string \<Rightarrow> unit effect"

section \<open>\<^verbatim>\<open>render\<close> (lines 14 to 42)\<close>

text \<open>
  The two originals are read, both write functions are replaced, the engine runs, and the
  \<^verbatim>\<open>finally\<close> block assigns the originals back before the outcome of the engine, thrown
  or returned, is passed on.
\<close>

definition render :: "host \<Rightarrow> js_string \<Rightarrow> js_string \<Rightarrow> format option \<Rightarrow> unit effect" where
  "render h inputPath outputPath fmt w =
     (let originalStdout = stdout_write w;
          originalStderr = stderr_write w;
          w1 = w\<lparr>stdout_write := Noop, stderr_write := Noop\<rparr>
      in case run h inputPath outputPath
                \<lparr>puppeteer_args = [lit ''--no-sandbox''], headless = lit ''new'',
                 outputFormat = fmt, quiet = True\<rparr> w1 of
           (r, w2) \<Rightarrow> (r, w2\<lparr>stdout_write := originalStdout, stderr_write := originalStderr\<rparr>))"

section \<open>\<^verbatim>\<open>generateDiagram\<close> (lines 44 to 75)\<close>

text \<open>
  Lines 55 to 60, the text that is staged: with the markdown flag, and when the text
  includes the marker, the piece after the first marker up to the next fence, trimmed.
\<close>

definition opening_marker :: js_string where
  "opening_marker = lit ''```mermaid''"

definition fence :: js_string where
  "fence = lit ''```''"

definition staged_content :: "js_string \<Rightarrow> bool \<Rightarrow> thrown + js_string" where
  "staged_content diagram isMarkdown =
     (if isMarkdown then
        (if includes_js diagram opening_marker then
           (case at_index (split_js diagram opening_marker) 1 of
              None \<Rightarrow> Inl TypeError
            | Some after_marker \<Rightarrow>
                (case at_index (split_js after_marker fence) 0 of
                   None \<Rightarrow> Inl TypeError
                 | Some body \<Rightarrow> Inr (trim_js body)))
         else Inr diagram)
      else Inr diagram)"

definition input_path :: "host \<Rightarrow> int \<Rightarrow> js_string" where
  "input_path h timestamp =
     path_join h (tmpdir h) (lit ''input-'' @ number_toString timestamp @ lit ''.mmd'')"

definition output_path :: "host \<Rightarrow> int \<Rightarrow> format \<Rightarrow> js_string" where
  "output_path h timestamp fmt =
     path_join h (tmpdir h) (lit ''output-'' @ number_toString timestamp) @ lit ''.''
       @ format_string fmt"

text \<open>
  Each awaited step that throws ends the function there: no statement after it runs.
  The two \<^verbatim>\<open>unlink\<close> calls are started in this order and their failures are caught and
  dropped.
\<close>

definition generateDiagram :: "host \<Rightarrow> js_string \<Rightarrow> format \<Rightarrow> bool \<Rightarrow> int \<Rightarrow> buffer effect" where
  "generateDiagram h diagram fmt isMarkdown timestamp w =
     (let inputPath = input_path h timestamp;
          outputPath = output_path h timestamp fmt
      in case staged_content diagram isMarkdown of
           Inl e \<Rightarrow> (Inl e, w)
         | Inr content \<Rightarrow>
        (case writeFile h inputPath content w of
           (Inl e, w1) \<Rightarrow> (Inl e, w1)
         | (Inr _, w1) \<Rightarrow>
        (case render h inputPath outputPath (Some fmt) w1 of
           (Inl e, w2) \<Rightarrow> (Inl e, w2)
         | (Inr _, w2) \<Rightarrow>
        (case readFile h outputPath w2 of
           (Inl e, w3) \<Rightarrow> (Inl e, w3)
         | (Inr output, w3) \<Rightarrow>
        (case unlink h inputPath w3 of
           (_, w4) \<Rightarrow>
        (case unlink h outputPath w4 of
           (_, w5) \<Rightarrow> (Inr output, w5)))))))"

section \<open>The two tools (lines 78 to 160)\<close>

datatype content_block =
    Image js_string js_string
  | Resource js_string js_string js_string
  | Text js_string

text \<open>
  \<open>Image mimeType data\<close>, \<open>Resource uri mimeType blob\<close> and \<open>Text text\<close> are the blocks
  with \<^verbatim>\<open>type\<close> \<^verbatim>\<open>"image"\<close>, \<^verbatim>\<open>"resource"\<close> and \<^verbatim>\<open>"text"\<close>; a reply is the list
  \<^verbatim>\<open>content\<close>.
\<close>

type_synonym reply = "content_block list"

text \<open>The two Japanese literals of the \<^verbatim>\<open>catch\<close> block of \<^verbatim>\<open>render_mermaid\<close>, as code units.\<close>

definition unknown_error_text :: js_string where
  "unknown_error_text = [0x4E0D, 0x660E, 0x306A, 0x30A8, 0x30E9, 0x30FC]"

definition failure_prefix :: js_string where
  "failure_prefix =
     [0x56F3, 0x306E, 0x751F, 0x6210, 0x4E2D, 0x306B, 0x30A8, 0x30E9, 0x30FC, 0x304C, 0x767A,
      0x751F, 0x3057, 0x307E, 0x3057, 0x305F]"

definition render_mermaid :: "host \<Rightarrow> js_string \<Rightarrow> format \<Rightarrow> bool \<Rightarrow> reply effect" where
  "render_mermaid h diagram fmt isMarkdown w =
     (let timestamp = clock w
      in case generateDiagram h diagram fmt isMarkdown timestamp w of
           (Inr output, w') \<Rightarrow>
             (if fmt = Png then
                (Inr [Image (lit ''image/png'') (toString_base64 output)], w')
              else if fmt = Pdf then
                (Inr [Resource (number_toString timestamp @ lit ''.pdf'')
                        (lit ''application/pdf'') (toString_base64 output)], w')
              else (Inr [Text (toString_utf8 output)], w'))
         | (Inl error, w') \<Rightarrow>
             (let errorMessage = (case error of Error m \<Rightarrow> m | NonError \<Rightarrow> unknown_error_text)
              in (Inl (Error (failure_prefix @ lit '': '' @ errorMessage)), w')))"

definition dryrun_mermaid :: "host \<Rightarrow> js_string \<Rightarrow> format \<Rightarrow> bool \<Rightarrow> reply effect" where
  "dryrun_mermaid h diagram fmt isMarkdown w =
     (let timestamp = clock w
      in case generateDiagram h diagram fmt isMarkdown timestamp w of
           (Inr output, w') \<Rightarrow>
             (Inr [Text (JSON_stringify [(lit ''status'', lit ''ok'')])], w')
         | (Inl error, w') \<Rightarrow>
             (let errorMessage =
                    (case error of Error m \<Rightarrow> m | NonError \<Rightarrow> lit ''Occurred an error'')
              in (Inr [Text (JSON_stringify
                               [(lit ''status'', lit ''failed''), (lit ''message'', errorMessage)])],
                  w')))"

section \<open>An in-memory host\<close>

text \<open>
  A host on which the tools can be run: files live in the map \<open>files\<close>, a missing file
  makes \<^verbatim>\<open>readFile\<close> and \<^verbatim>\<open>unlink\<close> fail, and the engine reads the input file, draws it
  with \<open>draw\<close> and writes the artifact to the output path, or throws what \<open>draw\<close> throws.
\<close>

definition ENOENT :: thrown where
  "ENOENT = Error (lit ''ENOENT: no such file or directory'')"

definition mem_writeFile :: "js_string \<Rightarrow> js_string \<Rightarrow> unit effect" where
  "mem_writeFile path content w = (Inr (), w\<lparr>files := (files w)(path \<mapsto> utf8_encode content)\<rparr>)"

definition mem_readFile :: "js_string \<Rightarrow> buffer effect" where
  "mem_readFile path w = (case files w path of None \<Rightarrow> (Inl ENOENT, w) | Some b \<Rightarrow> (Inr b, w))"

definition mem_unlink :: "js_string \<Rightarrow> unit effect" where
  "mem_unlink path w =
     (case files w path of
        None \<Rightarrow> (Inl ENOENT, w)
      | Some b \<Rightarrow> (Inr (), w\<lparr>files := (files w)(path := None)\<rparr>))"

definition mem_run ::
  "(buffer \<Rightarrow> thrown + buffer) \<Rightarrow> js_string \<Rightarrow> js_string \<Rightarrow> run_options \<Rightarrow> unit effect" where
  "mem_run draw inputPath outputPath opts w =
     (case files w inputPath of
        None \<Rightarrow> (Inl ENOENT, w)
      | Some src \<Rightarrow>
          (case draw src of
             Inl e \<Rightarrow> (Inl e, w)
           | Inr artifact \<Rightarrow> (Inr (), w\<lparr>files := (files w)(outputPath \<mapsto> artifact)\<rparr>)))"

definition mem_host :: "(buffer \<Rightarrow> thrown + buffer) \<Rightarrow> host" where
  "mem_host draw =
     \<lparr>tmpdir = lit ''/tmp'', path_join = (\<lambda>a b. a @ lit ''/'' @ b), writeFile = mem_writeFile,
      run = mem_run draw, readFile = mem_readFile, unlink = mem_unlink\<rparr>"

text \<open>An engine that rejects every diagram, one that throws a value that is no \<^verbatim>\<open>Error\<close>,
  and one that draws the same three bytes for every diagram.\<close>

definition rejecting :: "buffer \<Rightarrow> thrown + buffer" where
  "rejecting src = Inl (Error (lit ''Parse error on line 1''))"

definition throwing_a_string :: "buffer \<Rightarrow> thrown + buffer" where
  "throwing_a_string src = Inl NonError"

definition drawing :: "buffer \<Rightarrow> thrown + buffer" where
  "drawing src = Inr [0x3C, 0x67, 0x3E]"

text \<open>An engine that tells whether it was called with both write functions silenced, and
  that overwrites one of them before it returns.\<close>

definition probe_run :: "js_string \<Rightarrow> js_string \<Rightarrow> run_options \<Rightarrow> unit effect" where
  "probe_run inputPath outputPath opts w =
     (if stdout_write w = Noop \<and> stderr_write w = Noop
      then (Inr (), w\<lparr>stdout_write := Write 7\<rparr>)
      else (Inl (Error (lit ''not silenced'')), w\<lparr>stdout_write := Write 7\<rparr>))"

definition boot :: world where
  "boot = \<lparr>stdout_write = Write 1, stderr_write = Write 2, files = Map.empty,
           clock = 1700000000000\<rparr>"

section \<open>Facts about \<^verbatim>\<open>includes\<close> and \<^verbatim>\<open>split\<close>\<close>

text \<open>
  \<open>includes_js\<close> finds the pattern wherever it occurs, and an occurrence has a first
  position: one with no occurrence starting before it.
\<close>

lemma prefix_includes_js: "prefix p s \<Longrightarrow> includes_js s p"
  by (cases s) auto

lemma first_occurrence:
  "includes_js s sep \<Longrightarrow> \<exists>a b. s = a @ sep @ b \<and> (\<forall>i<length a. \<not> prefix sep (drop i s))"
proof (induction s)
  case Nil
  then show ?case by auto
next
  case (Cons x xs)
  show ?case
  proof (cases "prefix sep (x # xs)")
    case True
    then obtain b where "x # xs = [] @ sep @ b" by (auto simp: prefix_def)
    then show ?thesis by (metis list.size(3) not_less_zero)
  next
    case False
    with Cons.prems have "includes_js xs sep" by simp
    with Cons.IH obtain a b where ab: "xs = a @ sep @ b" "\<forall>i<length a. \<not> prefix sep (drop i xs)"
      by blast
    have "\<forall>i<length (x # a). \<not> prefix sep (drop i (x # xs))"
    proof (intro allI impI)
      fix i assume i: "i < length (x # a)"
      show "\<not> prefix sep (drop i (x # xs))"
      proof (cases i)
        case 0
        with False show ?thesis by simp
      next
        case (Suc j)
        with i ab(2) show ?thesis by simp
      qed
    qed
    moreover from ab(1) have "x # xs = (x # a) @ sep @ b" by simp
    ultimately show ?thesis by blast
  qed
qed

lemma includes_js_iff: "includes_js s p \<longleftrightarrow> (\<exists>a b. s = a @ p @ b)"
proof
  assume "includes_js s p"
  then show "\<exists>a b. s = a @ p @ b" using first_occurrence by blast
next
  assume "\<exists>a b. s = a @ p @ b"
  then obtain a b where "s = a @ p @ b" by blast
  then show "includes_js s p"
    by (induction a arbitrary: s) (auto simp: prefix_includes_js)
qed

text \<open>
  The loop of \<^verbatim>\<open>split\<close> never returns the empty list, an accumulated piece only
  extends the first piece, a text without the separator is one piece, and the first cut is
  made at the first occurrence of the separator.
\<close>

lemma split_loop_not_Nil: "split_loop sep acc s \<noteq> []"
  by (induction sep acc s rule: split_loop.induct) auto

lemma split_loop_acc:
  "split_loop sep (a @ acc) s = (a @ hd (split_loop sep acc s)) # tl (split_loop sep acc s)"
  by (induction s arbitrary: acc) simp_all

lemma split_loop_acc_Nil:
  "split_loop sep acc s = (acc @ hd (split_loop sep [] s)) # tl (split_loop sep [] s)"
  using split_loop_acc [of sep acc "[]" s] by simp

lemma split_loop_no_match:
  "\<not> includes_js s sep \<Longrightarrow> split_loop sep acc s = [acc @ s]"
  by (induction s arbitrary: acc) auto

lemma split_loop_first:
  assumes "sep \<noteq> []" and "\<forall>i<length a. \<not> prefix sep (drop i (a @ sep @ b))"
  shows "split_loop sep acc (a @ sep @ b) = (acc @ a) # split_loop sep [] b"
  using assms(2)
proof (induction a arbitrary: acc)
  case Nil
  from assms(1) obtain y ys where sep: "sep = y # ys" by (cases sep) auto
  then show ?case by simp
next
  case (Cons x a)
  from Cons.prems have no: "\<not> prefix sep (x # a @ sep @ b)" by fastforce
  have "\<forall>i<length a. \<not> prefix sep (drop i (a @ sep @ b))"
  proof (intro allI impI)
    fix i assume "i < length a"
    then have "Suc i < length (x # a)" by simp
    with Cons.prems have "\<not> prefix sep (drop (Suc i) ((x # a) @ sep @ b))" by blast
    then show "\<not> prefix sep (drop i (a @ sep @ b))" by simp
  qed
  with Cons.IH have "split_loop sep (acc @ [x]) (a @ sep @ b) = ((acc @ [x]) @ a) # split_loop sep [] b"
    by blast
  with no show ?case by simp
qed

lemma hd_split_loop_cases:
  assumes "sep \<noteq> []"
  shows "(\<not> includes_js s sep \<and> hd (split_loop sep [] s) = s) \<or>
         (\<exists>a b. s = a @ sep @ b \<and> (\<forall>i<length a. \<not> prefix sep (drop i s)) \<and>
                hd (split_loop sep [] s) = a)"
proof (cases "includes_js s sep")
  case False
  then show ?thesis by (simp add: split_loop_no_match)
next
  case True
  then obtain a b where ab: "s = a @ sep @ b" "\<forall>i<length a. \<not> prefix sep (drop i s)"
    using first_occurrence by blast
  with assms have "split_loop sep [] s = a # split_loop sep [] b"
    using split_loop_first [of sep a b "[]"] by simp
  with ab show ?thesis by auto
qed

lemma hd_split_loop_prefix: "sep \<noteq> [] \<Longrightarrow> prefix (hd (split_loop sep [] s)) s"
  using hd_split_loop_cases [of sep s] by (metis prefixI prefix_order.order_refl)

text \<open>
  Whether the separator occurs at a position before its own occurrence does not depend on
  what follows that occurrence.
\<close>

lemma prefix_sep_independent: "prefix p (u @ p @ x) \<longleftrightarrow> prefix p (u @ p @ y)"
proof -
  have "prefix p (u @ p @ z) \<longleftrightarrow> take (length p) (u @ p) = p" for z
  proof -
    have "prefix p (u @ p @ z) \<longleftrightarrow> take (length p) (u @ p @ z) = p"
      by (metis append_eq_conv_conj prefix_def append_take_drop_id)
    also have "take (length p) (u @ p @ z) = take (length p) ((u @ p) @ z)" by simp
    also have "\<dots> = take (length p) (u @ p)" by (simp del: append_assoc)
    finally show ?thesis .
  qed
  then show ?thesis by simp
qed

lemma no_occurrence_before:
  assumes "sep \<noteq> []" and "\<not> includes_js (a @ butlast sep) sep"
  shows "\<forall>i<length a. \<not> prefix sep (drop i (a @ sep @ b))"
proof (intro allI impI notI)
  fix i
  assume i: "i < length a" and p: "prefix sep (drop i (a @ sep @ b))"
  let ?u = "drop i a"
  from i have len: "length sep \<le> length (?u @ butlast sep)" using assms(1)
    by (simp add: Suc_leI)
  from assms(1) have sep: "sep = butlast sep @ [last sep]" by simp
  from i p have "prefix sep (?u @ sep @ b)" by simp
  then have "take (length sep) (?u @ sep @ b) = sep"
    by (metis append_eq_conv_conj prefix_def)
  moreover have "?u @ sep @ b = (?u @ butlast sep) @ ([last sep] @ b)"
    using sep by (metis append.assoc)
  ultimately have "take (length sep) ((?u @ butlast sep) @ ([last sep] @ b)) = sep" by simp
  with len have "take (length sep) (?u @ butlast sep) = sep" by (simp del: append_assoc)
  then obtain r where "?u @ butlast sep = sep @ r" by (metis append_take_drop_id)
  then have "a @ butlast sep = take i a @ sep @ r"
    by (metis append.assoc append_take_drop_id)
  then have "includes_js (a @ butlast sep) sep" unfolding includes_js_iff by blast
  with assms(2) show False by contradiction
qed

section \<open>Facts about the staged text\<close>

lemma length_trim_js: "length (trim_js s) \<le> length s"
proof -
  have "length (trim_js s) \<le> length (dropWhile is_white_space s)"
    unfolding trim_js_def using length_dropWhile_le [of is_white_space "rev (dropWhile is_white_space s)"]
    by simp
  also have "\<dots> \<le> length s" by (rule length_dropWhile_le)
  finally show ?thesis .
qed

lemma opening_marker_fence: "opening_marker = fence @ lit ''mermaid''"
  by (simp add: opening_marker_def fence_def lit_def)

lemma fence_not_Nil: "fence \<noteq> []"
  by (simp add: fence_def lit_def)

lemma opening_marker_not_Nil: "opening_marker \<noteq> []"
  by (simp add: opening_marker_def lit_def)

text \<open>
  With the flag set and a first marker in the text, the staged text is the first piece
  of what follows the marker, cut at the first fence and trimmed; neither index is ever
  out of range.
\<close>

lemma staged_content_after_first_marker:
  assumes "\<forall>i<length pre. \<not> prefix opening_marker (drop i (pre @ opening_marker @ rest))"
  shows "staged_content (pre @ opening_marker @ rest) True =
           Inr (trim_js (hd (split_loop fence [] (hd (split_loop opening_marker [] rest)))))"
proof -
  have inc: "includes_js (pre @ opening_marker @ rest) opening_marker"
    by (auto simp: includes_js_iff)
  have "split_loop opening_marker [] (pre @ opening_marker @ rest)
          = pre # split_loop opening_marker [] rest"
    using split_loop_first [OF opening_marker_not_Nil assms, of "[]"] by simp
  then have 1: "at_index (split_js (pre @ opening_marker @ rest) opening_marker) 1
                  = Some (hd (split_loop opening_marker [] rest))"
    using split_loop_not_Nil [of opening_marker "[]" rest]
    by (cases "split_loop opening_marker [] rest")
       (simp_all add: at_index_def split_js_def opening_marker_not_Nil)
  have 2: "at_index (split_js t fence) 0 = Some (hd (split_loop fence [] t))" for t
    using split_loop_not_Nil [of fence "[]" t]
    by (cases "split_loop fence [] t") (simp_all add: at_index_def split_js_def fence_not_Nil)
  show ?thesis using 1 2 by (simp add: staged_content_def inc)
qed

lemma staged_content_never_throws: "\<exists>content. staged_content diagram isMarkdown = Inr content"
proof (cases "isMarkdown \<and> includes_js diagram opening_marker")
  case False
  then show ?thesis by (auto simp: staged_content_def)
next
  case True
  then obtain a b where "diagram = a @ opening_marker @ b"
    "\<forall>i<length a. \<not> prefix opening_marker (drop i diagram)"
    using first_occurrence by blast
  with True show ?thesis using staged_content_after_first_marker [of a b] by auto
qed

text \<open>
  When the first fence after the marker is directly followed by one or two backticks and
  \<^verbatim>\<open>mermaid\<close>, the marker occurs again before that fence ends. The cut by the marker
  then leaves no whole fence, and the staged text keeps those backticks.
\<close>

lemma staged_content_fenced_overlap:
  assumes first: "\<forall>i<length pre. \<not> prefix opening_marker
                     (drop i (pre @ opening_marker @ inner @ fence @ ticks @ lit ''mermaid'' @ z))"
    and next_fence: "\<forall>j<length inner. \<not> prefix fence
                     (drop j (inner @ fence @ ticks @ lit ''mermaid'' @ z))"
    and ticks: "ticks = lit ''`'' \<or> ticks = lit ''``''"
  shows "staged_content (pre @ opening_marker @ inner @ fence @ ticks @ lit ''mermaid'' @ z) True
           = Inr (trim_js (inner @ ticks))"
proof -
  let ?rest = "inner @ fence @ ticks @ lit ''mermaid'' @ z"
  from ticks have swap: "fence @ ticks @ lit ''mermaid'' @ z = ticks @ opening_marker @ z"
    by (auto simp: fence_def opening_marker_def lit_def)
  then have rest: "?rest = (inner @ ticks) @ opening_marker @ z" by simp
  have pf: "prefix fence opening_marker" by (simp add: opening_marker_fence)
  have no_marker: "\<not> prefix opening_marker (drop i ?rest)" if "i < length (inner @ ticks)" for i
  proof (cases "i < length inner")
    case True
    with next_fence have "\<not> prefix fence (drop i ?rest)" by blast
    with pf show ?thesis using prefix_order.trans by blast
  next
    case False
    then have "drop i (inner @ x) = drop (i - length inner) x" for x :: js_string
      by simp
    from this [of "fence @ ticks @ lit ''mermaid'' @ z"]
    have d: "drop i ?rest = drop (i - length inner) (ticks @ opening_marker @ z)"
      unfolding swap .
    from ticks show ?thesis
    proof
      assume t: "ticks = lit ''`''"
      with False that have z0: "i - length inner = 0" by (simp add: lit_def)
      have "\<not> prefix opening_marker (drop (i - length inner) (ticks @ opening_marker @ z))"
        unfolding z0 t by (simp add: opening_marker_def lit_def)
      then show ?thesis unfolding d .
    next
      assume t: "ticks = lit ''``''"
      with False that consider "i - length inner = 0" | "i - length inner = 1"
        by (simp add: lit_def) arith
      then show ?thesis
      proof cases
        case 1
        have "\<not> prefix opening_marker (drop (i - length inner) (ticks @ opening_marker @ z))"
          unfolding 1 t by (simp add: opening_marker_def lit_def)
        then show ?thesis unfolding d .
      next
        case 2
        have "\<not> prefix opening_marker (drop (i - length inner) (ticks @ opening_marker @ z))"
          unfolding 2 t by (simp add: opening_marker_def lit_def)
        then show ?thesis unfolding d .
      qed
    qed
  qed
  then have "\<forall>i<length (inner @ ticks). \<not> prefix opening_marker
                (drop i ((inner @ ticks) @ opening_marker @ z))"
    using rest by simp
  then have sp: "split_loop opening_marker [] ((inner @ ticks) @ opening_marker @ z)
               = (inner @ ticks) # split_loop opening_marker [] z"
    using split_loop_first [OF opening_marker_not_Nil, of "inner @ ticks" z "[]"] by simp
  have y: "hd (split_loop opening_marker [] ?rest) = inner @ ticks"
    unfolding rest sp by simp
  have "\<not> includes_js (inner @ ticks) fence"
  proof
    assume "includes_js (inner @ ticks) fence"
    then obtain u v where uv: "inner @ ticks = u @ fence @ v" by (auto simp: includes_js_iff)
    have "length (inner @ ticks) = length (u @ fence @ v)" by (simp only: uv)
    then have "length inner + length ticks = length u + length fence + length v" by simp
    with ticks have "length u < length inner" by (auto simp: fence_def lit_def)
    with next_fence have "\<not> prefix fence (drop (length u) ?rest)" by blast
    moreover have "?rest = u @ fence @ v @ opening_marker @ z" unfolding rest uv by simp
    ultimately show False by simp
  qed
  then have "hd (split_loop fence [] (inner @ ticks)) = inner @ ticks"
    by (simp add: split_loop_no_match)
  with y show ?thesis
    using staged_content_after_first_marker [of pre ?rest] first by simp
qed

section \<open>The staged text: claims C5, C6, C7, C9 and C10\<close>

text \<open>
  C5. Without the markdown flag the staged text is the diagram text itself, whatever it
  contains: \<^verbatim>\<open>content = diagram\<close> is the only assignment that runs.
\<close>

theorem staged_content_not_markdown: "staged_content text False = Inr text"
  by (simp add: staged_content_def)

theorem staged_content_not_markdown_witness:
  "staged_content (lit ''```mermaid A```'') False = Inr (lit ''```mermaid A```'')"
  using staged_content_not_markdown [of "lit ''```mermaid A```''"] by simp

text \<open>
  C6, as amended. With the markdown flag set, let the marker occur first after \<open>pre\<close>
  and let the next fence after it follow \<open>inner\<close>. Unless that fence is directly
  followed by one or two backticks and \<^verbatim>\<open>mermaid\<close>, which would make the marker occur
  again on top of the fence, the staged text is \<open>inner\<close> trimmed: neither the marker nor
  the fence is part of it.
\<close>

theorem staged_content_fenced:
  assumes decomp: "text = pre @ opening_marker @ inner @ fence @ post"
    and first: "\<forall>i<length pre. \<not> prefix opening_marker (drop i text)"
    and next_fence: "\<forall>j<length inner. \<not> prefix fence (drop j (inner @ fence @ post))"
    and no1: "\<not> prefix (lit ''`mermaid'') post"
    and no2: "\<not> prefix (lit ''``mermaid'') post"
  shows "staged_content text True = Inr (trim_js inner)"
proof -
  let ?rest = "inner @ fence @ post"
  let ?y = "hd (split_loop opening_marker [] ?rest)"
  have key: "?y = inner \<or> (\<exists>c. ?y = inner @ fence @ c)"
    using hd_split_loop_cases [OF opening_marker_not_Nil, of ?rest]
  proof (elim disjE conjE exE)
    assume "?y = ?rest"
    then show ?thesis by blast
  next
    fix a b
    assume ab: "?rest = a @ opening_marker @ b" and y: "?y = a"
    have le: "length inner \<le> length a"
    proof (rule ccontr)
      assume "\<not> length inner \<le> length a"
      then have "length a < length inner" by simp
      with next_fence have "\<not> prefix fence (drop (length a) ?rest)" by blast
      moreover have "drop (length a) ?rest = fence @ lit ''mermaid'' @ b"
        by (simp add: ab opening_marker_fence)
      ultimately show False by simp
    qed
    from ab have "take (length inner) ?rest = take (length inner) (a @ opening_marker @ b)"
      by simp
    with le have inner: "inner = take (length inner) a" by simp
    define c where "c = drop (length inner) a"
    from inner have a: "a = inner @ c" unfolding c_def by (metis append_take_drop_id)
    with ab have eq: "fence @ post = c @ opening_marker @ b" by simp
    consider "c = []" | c1 where "c = [c1]" | c1 c2 where "c = [c1, c2]"
      | c1 c2 c3 c' where "c = c1 # c2 # c3 # c'"
      by (cases c; cases "tl c"; cases "tl (tl c)") auto
    then show ?thesis
    proof cases
      case 1
      with a y show ?thesis by simp
    next
      case 2
      with eq have "prefix (lit ''`mermaid'') post"
        by (simp add: fence_def opening_marker_def lit_def)
      with no1 show ?thesis by contradiction
    next
      case 3
      with eq have "prefix (lit ''``mermaid'') post"
        by (simp add: fence_def opening_marker_def lit_def)
      with no2 show ?thesis by contradiction
    next
      case 4
      with eq have "c = fence @ c'" by (simp add: fence_def opening_marker_def lit_def)
      with a y show ?thesis by simp
    qed
  qed
  have no_in: "\<not> includes_js inner fence"
  proof
    assume "includes_js inner fence"
    then obtain u v where uv: "inner = u @ fence @ v" by (auto simp: includes_js_iff)
    then have "length u < length inner" using fence_not_Nil by simp
    with next_fence have "\<not> prefix fence (drop (length u) ?rest)" by blast
    then show False by (simp add: uv)
  qed
  have "hd (split_loop fence [] ?y) = inner"
    using key
  proof (elim disjE exE)
    assume "?y = inner"
    with no_in show ?thesis by (simp add: split_loop_no_match)
  next
    fix c assume c: "?y = inner @ fence @ c"
    have "\<forall>j<length inner. \<not> prefix fence (drop j (inner @ fence @ c))"
    proof (intro allI impI)
      fix j assume j: "j < length inner"
      with next_fence have "\<not> prefix fence (drop j inner @ fence @ post)" by simp
      then have "\<not> prefix fence (drop j inner @ fence @ c)"
        using prefix_sep_independent [of fence "drop j inner" post c] by simp
      with j show "\<not> prefix fence (drop j (inner @ fence @ c))" by simp
    qed
    then have "split_loop fence [] (inner @ fence @ c) = inner # split_loop fence [] c"
      using split_loop_first [OF fence_not_Nil, of inner c "[]"] by simp
    with c show ?thesis by simp
  qed
  then show ?thesis
    using staged_content_after_first_marker [of pre ?rest] first decomp by simp
qed

theorem staged_content_fenced_witness:
  "staged_content
     (lit ''# Doc'' @ [0x0A] @ lit ''```mermaid'' @ [0x0A] @ lit ''graph TD; A-->B;'' @ [0x0A]
        @ lit ''```'' @ [0x0A] @ lit ''The end.'')
     True = Inr (lit ''graph TD; A-->B;'')"
proof -
  let ?pre = "lit ''# Doc'' @ [0x0A]"
  let ?inner = "[0x0A] @ lit ''graph TD; A-->B;'' @ [0x0A]"
  let ?post = "[0x0A] @ lit ''The end.''"
  let ?text = "?pre @ opening_marker @ ?inner @ fence @ ?post"
  have "\<not> includes_js (?pre @ butlast opening_marker) opening_marker"
    by (simp add: opening_marker_def lit_def)
  then have first: "\<forall>i<length ?pre. \<not> prefix opening_marker (drop i ?text)"
    using no_occurrence_before [OF opening_marker_not_Nil] by blast
  have "\<not> includes_js (?inner @ butlast fence) fence" by (simp add: fence_def lit_def)
  then have next_fence: "\<forall>j<length ?inner. \<not> prefix fence (drop j (?inner @ fence @ ?post))"
    using no_occurrence_before [OF fence_not_Nil] by blast
  have no1: "\<not> prefix (lit ''`mermaid'') ?post" and no2: "\<not> prefix (lit ''``mermaid'') ?post"
    by (simp_all add: lit_def)
  have "trim_js ?inner = lit ''graph TD; A-->B;''"
    by (simp add: trim_js_def is_white_space_def lit_def)
  then show ?thesis
    using staged_content_fenced [OF refl first next_fence no1 no2]
    by (simp add: opening_marker_def fence_def)
qed

text \<open>
  C6 as it is stated fails where the first fence after the marker is the start of four
  backticks and \<^verbatim>\<open>mermaid\<close>. In the text below the marker comes first, the next fence
  follows \<^verbatim>\<open>" A "\<close>, and the content between them, trimmed, is \<^verbatim>\<open>"A"\<close>. The marker
  occurs again one code unit after that fence begins, so \<^verbatim>\<open>split\<close> by the marker cuts
  there and leaves no whole fence: what is staged keeps a backtick.
\<close>

theorem staged_content_fenced_counterexample:
  "lit ''```mermaid A ````mermaid'' = [] @ opening_marker @ lit '' A '' @ fence @ lit ''`mermaid'' \<and>
   \<not> includes_js (lit '' A '' @ butlast fence) fence \<and>
   trim_js (lit '' A '') = lit ''A'' \<and>
   staged_content (lit ''```mermaid A ````mermaid'') True = Inr (lit ''A `'') \<and>
   staged_content (lit ''```mermaid A ````mermaid'') True \<noteq> Inr (trim_js (lit '' A ''))"
  by (simp add: staged_content_def opening_marker_def fence_def split_js_def at_index_def
      trim_js_def is_white_space_def lit_def)

text \<open>
  C7. With the markdown flag set and no occurrence of the marker anywhere in the text,
  the staged text is the text itself, and nothing is thrown.
\<close>

theorem staged_content_no_marker:
  assumes "\<forall>pre post. text \<noteq> pre @ opening_marker @ post"
  shows "staged_content text True = Inr text"
proof -
  from assms have "\<not> includes_js text opening_marker" by (simp add: includes_js_iff)
  then show ?thesis by (simp add: staged_content_def)
qed

theorem staged_content_no_marker_witness:
  "(\<forall>pre post. lit ''graph TD; A-->B;'' \<noteq> pre @ opening_marker @ post) \<and>
   staged_content (lit ''graph TD; A-->B;'') True = Inr (lit ''graph TD; A-->B;'')"
proof -
  have "\<not> includes_js (lit ''graph TD; A-->B;'') opening_marker"
    by (simp add: opening_marker_def lit_def)
  then have h: "\<forall>pre post. lit ''graph TD; A-->B;'' \<noteq> pre @ opening_marker @ post"
    by (simp add: includes_js_iff)
  from h staged_content_no_marker [OF h] show ?thesis by blast
qed

text \<open>
  C9. With the markdown flag set, the text is staged unchanged exactly when the code
  units of the marker, three backticks directly followed by \<^verbatim>\<open>mermaid\<close> in lower case,
  occur nowhere in it. A spelling with a space after the backticks or with a capital
  letter is not an occurrence, so a text that has only such spellings is staged unchanged.
\<close>

theorem staged_content_exact_marker:
  "staged_content text True = Inr text \<longleftrightarrow>
     (\<forall>pre post. text \<noteq> pre @ lit ''```mermaid'' @ post)"
proof (cases "includes_js text opening_marker")
  case False
  then show ?thesis
    by (simp add: staged_content_def includes_js_iff opening_marker_def)
next
  case True
  then obtain a b where ab: "text = a @ opening_marker @ b"
    "\<forall>i<length a. \<not> prefix opening_marker (drop i text)"
    using first_occurrence by blast
  let ?y = "hd (split_loop opening_marker [] b)"
  let ?z = "hd (split_loop fence [] ?y)"
  have "staged_content text True = Inr (trim_js ?z)"
    using staged_content_after_first_marker [of a b] ab by simp
  moreover have "length (trim_js ?z) \<le> length ?z" by (rule length_trim_js)
  moreover have "length ?z \<le> length ?y"
    using hd_split_loop_prefix [OF fence_not_Nil] by (simp add: prefix_length_le)
  moreover have "length ?y \<le> length b"
    using hd_split_loop_prefix [OF opening_marker_not_Nil] by (simp add: prefix_length_le)
  moreover have "length b < length text"
    using ab(1) opening_marker_not_Nil by simp
  ultimately have "staged_content text True \<noteq> Inr text" by auto
  moreover from True have "\<exists>pre post. text = pre @ lit ''```mermaid'' @ post"
    by (simp add: includes_js_iff opening_marker_def)
  ultimately show ?thesis by blast
qed

theorem staged_content_exact_marker_witness:
  "staged_content (lit ''``` mermaid A ```'') True = Inr (lit ''``` mermaid A ```'') \<and>
   staged_content (lit ''```Mermaid A ```'') True = Inr (lit ''```Mermaid A ```'') \<and>
   staged_content (lit ''```mermaid A ```'') True \<noteq> Inr (lit ''```mermaid A ```'')"
proof -
  have "\<not> includes_js (lit ''``` mermaid A ```'') (lit ''```mermaid'')"
    and "\<not> includes_js (lit ''```Mermaid A ```'') (lit ''```mermaid'')"
    and "includes_js (lit ''```mermaid A ```'') (lit ''```mermaid'')"
    by (simp_all add: lit_def)
  then show ?thesis
    using staged_content_exact_marker [of "lit ''``` mermaid A ```''"]
      staged_content_exact_marker [of "lit ''```Mermaid A ```''"]
      staged_content_exact_marker [of "lit ''```mermaid A ```''"]
    by (simp add: includes_js_iff)
qed

text \<open>
  C10. With the markdown flag set, when the marker occurs first after \<open>pre\<close> and no
  fence occurs in the text \<open>rest\<close> after that marker, the staged text is \<open>rest\<close>
  trimmed, not the whole text.
\<close>

theorem staged_content_unclosed:
  assumes decomp: "text = pre @ opening_marker @ rest"
    and first: "\<forall>i<length pre. \<not> prefix opening_marker (drop i text)"
    and nofence: "\<forall>a b. rest \<noteq> a @ fence @ b"
  shows "staged_content text True = Inr (trim_js rest)"
proof -
  from nofence have nf: "\<not> includes_js rest fence" by (simp add: includes_js_iff)
  have "\<not> includes_js rest opening_marker"
  proof
    assume "includes_js rest opening_marker"
    then obtain a b where "rest = a @ opening_marker @ b" by (auto simp: includes_js_iff)
    then have "rest = a @ fence @ (lit ''mermaid'' @ b)" by (simp add: opening_marker_fence)
    with nofence show False by blast
  qed
  then have "hd (split_loop opening_marker [] rest) = rest" by (simp add: split_loop_no_match)
  moreover from nf have "hd (split_loop fence [] rest) = rest" by (simp add: split_loop_no_match)
  ultimately show ?thesis
    using staged_content_after_first_marker [of pre rest] first decomp by simp
qed

theorem staged_content_unclosed_witness:
  "staged_content (lit ''# Doc'' @ [0x0A] @ lit ''```mermaid'' @ [0x0A] @ lit ''graph TD; A-->B;'' @ [0x0A])
     True = Inr (lit ''graph TD; A-->B;'')"
proof -
  let ?pre = "lit ''# Doc'' @ [0x0A]"
  let ?rest = "[0x0A] @ lit ''graph TD; A-->B;'' @ [0x0A]"
  have "\<not> includes_js (?pre @ butlast opening_marker) opening_marker"
    by (simp add: opening_marker_def lit_def)
  then have first: "\<forall>i<length ?pre. \<not> prefix opening_marker (drop i (?pre @ opening_marker @ ?rest))"
    using no_occurrence_before [OF opening_marker_not_Nil] by blast
  have "\<not> includes_js ?rest fence" by (simp add: fence_def lit_def)
  then have nofence: "\<forall>a b. ?rest \<noteq> a @ fence @ b" by (simp add: includes_js_iff)
  have "trim_js ?rest = lit ''graph TD; A-->B;''"
    by (simp add: trim_js_def is_white_space_def lit_def)
  then show ?thesis
    using staged_content_unclosed [OF refl first nofence] by (simp add: opening_marker_def)
qed

section \<open>Running the tools on the in-memory host\<close>

lemmas host_simps =
  mem_host_def mem_writeFile_def mem_readFile_def mem_unlink_def mem_run_def render_def
  generateDiagram_def input_path_def output_path_def staged_content_def number_toString_def
  boot_def

lemma digits_of_boot: "digits_of 1700000000000 = lit ''1700000000000''"
  by (simp add: lit_def)

lemma clock_boot: "clock boot = 1700000000000"
  by (simp add: boot_def)

lemma input_path_boot:
  "input_path (mem_host draw) 1700000000000 = lit ''/tmp/input-1700000000000.mmd''"
  by (simp add: input_path_def mem_host_def number_toString_def digits_of_boot lit_def)

lemma generateDiagram_rejecting:
  "generateDiagram (mem_host rejecting) (lit ''not a valid diagram !!!'') fmt False
     1700000000000 boot =
   (Inl (Error (lit ''Parse error on line 1'')),
    boot\<lparr>files := [lit ''/tmp/input-1700000000000.mmd''
                      \<mapsto> utf8_encode (lit ''not a valid diagram !!!'')]\<rparr>)"
  by (simp add: host_simps rejecting_def digits_of_boot) (simp add: lit_def)

lemma generateDiagram_throwing:
  "generateDiagram (mem_host throwing_a_string) (lit ''not a valid diagram !!!'') fmt False
     1700000000000 boot =
   (Inl NonError,
    boot\<lparr>files := [lit ''/tmp/input-1700000000000.mmd''
                      \<mapsto> utf8_encode (lit ''not a valid diagram !!!'')]\<rparr>)"
  by (simp add: host_simps throwing_a_string_def digits_of_boot) (simp add: lit_def)

text \<open>When every step succeeds both staged files are gone afterwards.\<close>

lemma generateDiagram_drawing:
  "generateDiagram (mem_host drawing) (lit ''graph TD; A-->B;'') fmt False 1700000000000 boot =
   (Inr [0x3C, 0x67, 0x3E], boot)"
  by (cases fmt; simp add: host_simps drawing_def digits_of_boot; simp add: lit_def)

section \<open>What a call does when a step throws\<close>

text \<open>
  A successful call went through every step, the two \<^verbatim>\<open>unlink\<close> calls last. A call in
  which \<^verbatim>\<open>render\<close> or \<^verbatim>\<open>readFile\<close> throws ends in the state that step left: neither
  \<^verbatim>\<open>unlink\<close> has run.
\<close>

lemma generateDiagram_Inr:
  assumes "generateDiagram h diagram fmt isMarkdown ts w = (Inr output, w')"
  shows "\<exists>content w1 w2 w3 w4 r4 r5.
           staged_content diagram isMarkdown = Inr content \<and>
           writeFile h (input_path h ts) content w = (Inr (), w1) \<and>
           render h (input_path h ts) (output_path h ts fmt) (Some fmt) w1 = (Inr (), w2) \<and>
           readFile h (output_path h ts fmt) w2 = (Inr output, w3) \<and>
           unlink h (input_path h ts) w3 = (r4, w4) \<and>
           unlink h (output_path h ts fmt) w4 = (r5, w')"
  using assms
  by (auto simp: generateDiagram_def Let_def split: sum.splits prod.splits)

text \<open>A call depends on the diagram and the flag only through the text that is staged.\<close>

lemma generateDiagram_staged:
  assumes "staged_content diagram isMarkdown = Inr content"
  shows "generateDiagram h diagram fmt isMarkdown ts w = generateDiagram h content fmt False ts w"
  using assms by (simp add: generateDiagram_def staged_content_def)

lemma generateDiagram_failed_render:
  assumes "staged_content diagram isMarkdown = Inr content"
    and "writeFile h (input_path h ts) content w = (Inr (), w1)"
    and "render h (input_path h ts) (output_path h ts fmt) (Some fmt) w1 = (Inl e, w2)"
  shows "generateDiagram h diagram fmt isMarkdown ts w = (Inl e, w2)"
  using assms by (simp add: generateDiagram_def)

lemma generateDiagram_failed_read:
  assumes "staged_content diagram isMarkdown = Inr content"
    and "writeFile h (input_path h ts) content w = (Inr (), w1)"
    and "render h (input_path h ts) (output_path h ts fmt) (Some fmt) w1 = (Inr (), w2)"
    and "readFile h (output_path h ts fmt) w2 = (Inl e, w3)"
  shows "generateDiagram h diagram fmt isMarkdown ts w = (Inl e, w3)"
  using assms by (simp add: generateDiagram_def)

lemma json_ok: "JSON_stringify [(lit ''status'', lit ''ok'')] = lit ''{\"status\":\"ok\"}''"
  by (simp add: lit_def JSON_stringify_def QuoteJSONString_def quote_unit_def is_lead_def
      is_trail_def)

lemma json_failed:
  "JSON_stringify [(lit ''status'', lit ''failed''), (lit ''message'', m)] =
     lit ''{\"status\":\"failed\",\"message\":'' @ QuoteJSONString m @ lit ''}''"
  by (simp add: lit_def JSON_stringify_def QuoteJSONString_def quote_unit_def is_lead_def
      is_trail_def)

lemma quote_plain:
  "QuoteJSONString (lit ''Parse error on line 1'') = lit ''\"Parse error on line 1\"''"
  "QuoteJSONString (lit ''Occurred an error'') = lit ''\"Occurred an error\"''"
  by (simp_all add: lit_def QuoteJSONString_def quote_unit_def is_lead_def is_trail_def)

section \<open>The tools: claims C1, C2, C3, C4 and C8\<close>

text \<open>
  C1 does not hold of the code. On the in-memory host with an engine that rejects the
  diagram, both tools end with the staged input file still in place under the path the
  call generated: \<^verbatim>\<open>generateDiagram\<close> has no \<^verbatim>\<open>finally\<close>, so the two \<^verbatim>\<open>unlink\<close> calls
  are reached only when writing, rendering and reading have all succeeded.
\<close>

theorem failed_call_leaves_input_file:
  "input_path (mem_host rejecting) (clock boot) = lit ''/tmp/input-1700000000000.mmd'' \<and>
   fst (render_mermaid (mem_host rejecting) (lit ''not a valid diagram !!!'') Png False boot)
     = Inl (Error (failure_prefix @ lit '': Parse error on line 1'')) \<and>
   files (snd (render_mermaid (mem_host rejecting) (lit ''not a valid diagram !!!'') Png False boot))
     (lit ''/tmp/input-1700000000000.mmd'') = Some (utf8_encode (lit ''not a valid diagram !!!'')) \<and>
   files (snd (dryrun_mermaid (mem_host rejecting) (lit ''not a valid diagram !!!'') Svg False boot))
     (lit ''/tmp/input-1700000000000.mmd'') = Some (utf8_encode (lit ''not a valid diagram !!!''))"
  by (simp add: render_mermaid_def dryrun_mermaid_def clock_boot input_path_boot
      generateDiagram_rejecting) (simp add: lit_def)

text \<open>
  C2. \<^verbatim>\<open>dryrun_mermaid\<close> never throws, on any host and for any arguments: it returns one
  text block, \<^verbatim>\<open>{"status":"ok"}\<close> when \<^verbatim>\<open>generateDiagram\<close> returned, and otherwise
  \<^verbatim>\<open>{"status":"failed","message":...}\<close> with the JSON string of the message of the thrown
  \<^verbatim>\<open>Error\<close>, or of \<^verbatim>\<open>Occurred an error\<close> when the thrown value is no \<^verbatim>\<open>Error\<close>.
\<close>

theorem dryrun_mermaid_never_throws:
  "fst (dryrun_mermaid h diagram fmt isMarkdown w) =
     (case fst (generateDiagram h diagram fmt isMarkdown (clock w) w) of
        Inr output \<Rightarrow> Inr [Text (lit ''{\"status\":\"ok\"}'')]
      | Inl error \<Rightarrow>
          Inr [Text (lit ''{\"status\":\"failed\",\"message\":''
                      @ QuoteJSONString
                          (case error of Error m \<Rightarrow> m | NonError \<Rightarrow> lit ''Occurred an error'')
                      @ lit ''}'')])"
  by (simp add: dryrun_mermaid_def json_ok json_failed split: prod.splits sum.splits)

theorem dryrun_mermaid_never_throws_witness:
  "fst (dryrun_mermaid (mem_host rejecting) (lit ''not a valid diagram !!!'') Svg False boot)
     = Inr [Text (lit ''{\"status\":\"failed\",\"message\":\"Parse error on line 1\"}'')] \<and>
   fst (dryrun_mermaid (mem_host throwing_a_string) (lit ''not a valid diagram !!!'') Svg False boot)
     = Inr [Text (lit ''{\"status\":\"failed\",\"message\":\"Occurred an error\"}'')] \<and>
   fst (dryrun_mermaid (mem_host drawing) (lit ''graph TD; A-->B;'') Svg False boot)
     = Inr [Text (lit ''{\"status\":\"ok\"}'')]"
  using dryrun_mermaid_never_throws [of "mem_host rejecting" "lit ''not a valid diagram !!!''" Svg False boot]
    dryrun_mermaid_never_throws [of "mem_host throwing_a_string" "lit ''not a valid diagram !!!''" Svg False boot]
    dryrun_mermaid_never_throws [of "mem_host drawing" "lit ''graph TD; A-->B;''" Svg False boot]
  by (simp add: clock_boot generateDiagram_rejecting generateDiagram_throwing
      generateDiagram_drawing quote_plain) (simp add: lit_def)

text \<open>
  C3. Whatever the engine does, returns or throws, \<^verbatim>\<open>render\<close> ends with both write
  functions equal to what they were when it was called. The engine is called once, in
  the state of the call with both write functions replaced by the no-op and nothing else
  changed; the outcome of \<^verbatim>\<open>render\<close> is the outcome of the engine, and the state is the
  one the engine left with the two originals assigned back.
\<close>

theorem render_restores_write_functions:
  "stdout_write (snd (render h inputPath outputPath fmt w)) = stdout_write w \<and>
   stderr_write (snd (render h inputPath outputPath fmt w)) = stderr_write w \<and>
   (\<exists>w1 w2. stdout_write w1 = Noop \<and> stderr_write w1 = Noop \<and> files w1 = files w \<and>
      clock w1 = clock w \<and>
      w2 = snd (run h inputPath outputPath
                 \<lparr>puppeteer_args = [lit ''--no-sandbox''], headless = lit ''new'',
                  outputFormat = fmt, quiet = True\<rparr> w1) \<and>
      fst (render h inputPath outputPath fmt w) =
        fst (run h inputPath outputPath
               \<lparr>puppeteer_args = [lit ''--no-sandbox''], headless = lit ''new'',
                outputFormat = fmt, quiet = True\<rparr> w1) \<and>
      snd (render h inputPath outputPath fmt w) =
        w2\<lparr>stdout_write := stdout_write w, stderr_write := stderr_write w\<rparr>)"
proof (intro conjI)
  show "stdout_write (snd (render h inputPath outputPath fmt w)) = stdout_write w"
    by (simp add: render_def split: prod.splits)
  show "stderr_write (snd (render h inputPath outputPath fmt w)) = stderr_write w"
    by (simp add: render_def split: prod.splits)
  show "\<exists>w1 w2. stdout_write w1 = Noop \<and> stderr_write w1 = Noop \<and> files w1 = files w \<and>
      clock w1 = clock w \<and>
      w2 = snd (run h inputPath outputPath
                 \<lparr>puppeteer_args = [lit ''--no-sandbox''], headless = lit ''new'',
                  outputFormat = fmt, quiet = True\<rparr> w1) \<and>
      fst (render h inputPath outputPath fmt w) =
        fst (run h inputPath outputPath
               \<lparr>puppeteer_args = [lit ''--no-sandbox''], headless = lit ''new'',
                outputFormat = fmt, quiet = True\<rparr> w1) \<and>
      snd (render h inputPath outputPath fmt w) =
        w2\<lparr>stdout_write := stdout_write w, stderr_write := stderr_write w\<rparr>"
    by (rule exI [of _ "w\<lparr>stdout_write := Noop, stderr_write := Noop\<rparr>"])
       (simp add: render_def split: prod.splits)
qed

text \<open>
  The probing engine returns only when it finds both write functions silenced, and it
  overwrites one of them; the in-memory engine throws, since the input file is missing.
\<close>

theorem render_restores_write_functions_witness:
  "fst (render ((mem_host drawing)\<lparr>run := probe_run\<rparr>) (lit ''in.mmd'') (lit ''out.svg'')
          (Some Svg) boot) = Inr () \<and>
   stdout_write (snd (render ((mem_host drawing)\<lparr>run := probe_run\<rparr>) (lit ''in.mmd'')
                        (lit ''out.svg'') (Some Svg) boot)) = Write 1 \<and>
   stderr_write (snd (render ((mem_host drawing)\<lparr>run := probe_run\<rparr>) (lit ''in.mmd'')
                        (lit ''out.svg'') (Some Svg) boot)) = Write 2 \<and>
   fst (render (mem_host rejecting) (lit ''in.mmd'') (lit ''out.svg'') (Some Svg) boot)
     = Inl ENOENT \<and>
   stdout_write (snd (render (mem_host rejecting) (lit ''in.mmd'') (lit ''out.svg'')
                        (Some Svg) boot)) = Write 1 \<and>
   stderr_write (snd (render (mem_host rejecting) (lit ''in.mmd'') (lit ''out.svg'')
                        (Some Svg) boot)) = Write 2"
proof -
  have "stdout_write boot = Write 1" and "stderr_write boot = Write 2"
    by (simp_all add: boot_def)
  moreover have "fst (render ((mem_host drawing)\<lparr>run := probe_run\<rparr>) (lit ''in.mmd'')
                        (lit ''out.svg'') (Some Svg) boot) = Inr ()"
    by (simp add: render_def mem_host_def probe_run_def)
  moreover have "fst (render (mem_host rejecting) (lit ''in.mmd'') (lit ''out.svg'') (Some Svg)
                        boot) = Inl ENOENT"
    by (simp add: render_def mem_host_def mem_run_def boot_def)
  ultimately show ?thesis
    using render_restores_write_functions
            [of "(mem_host drawing)\<lparr>run := probe_run\<rparr>" "lit ''in.mmd''" "lit ''out.svg''"
                "Some Svg" boot]
          render_restores_write_functions
            [of "mem_host rejecting" "lit ''in.mmd''" "lit ''out.svg''" "Some Svg" boot]
    by simp
qed

text \<open>
  C4. A call of \<^verbatim>\<open>render_mermaid\<close> that returns a reply returns exactly one block, built
  from the bytes \<^verbatim>\<open>generateDiagram\<close> returned: for \<^verbatim>\<open>png\<close> an image block of type
  \<^verbatim>\<open>image/png\<close> with the bytes in base64, for \<^verbatim>\<open>pdf\<close> a resource block whose uri is the
  timestamp followed by \<^verbatim>\<open>.pdf\<close>, of type \<^verbatim>\<open>application/pdf\<close>, with the bytes in base64,
  and for \<^verbatim>\<open>svg\<close> a text block with the bytes decoded as UTF-8.
\<close>

theorem render_mermaid_reply_shape:
  assumes "fst (render_mermaid h diagram fmt isMarkdown w) = Inr reply"
  shows "\<exists>output. fst (generateDiagram h diagram fmt isMarkdown (clock w) w) = Inr output \<and>
           reply = [case fmt of
                      Png \<Rightarrow> Image (lit ''image/png'') (toString_base64 output)
                    | Pdf \<Rightarrow> Resource (number_toString (clock w) @ lit ''.pdf'')
                              (lit ''application/pdf'') (toString_base64 output)
                    | Svg \<Rightarrow> Text (toString_utf8 output)]"
  using assms
  by (cases fmt) (auto simp: render_mermaid_def Let_def split: sum.splits prod.splits)

theorem render_mermaid_reply_shape_witness:
  "fst (render_mermaid (mem_host drawing) (lit ''graph TD; A-->B;'') Png False boot)
     = Inr [Image (lit ''image/png'') (lit ''PGc+'')] \<and>
   fst (render_mermaid (mem_host drawing) (lit ''graph TD; A-->B;'') Pdf False boot)
     = Inr [Resource (lit ''1700000000000.pdf'') (lit ''application/pdf'') (lit ''PGc+'')] \<and>
   fst (render_mermaid (mem_host drawing) (lit ''graph TD; A-->B;'') Svg False boot)
     = Inr [Text (lit ''<g>'')]"
proof -
  let ?call = "\<lambda>fmt. fst (render_mermaid (mem_host drawing) (lit ''graph TD; A-->B;'') fmt False boot)"
  have ok: "\<exists>reply. ?call fmt = Inr reply" for fmt
    by (simp add: render_mermaid_def clock_boot generateDiagram_drawing)
  have b64: "toString_base64 [0x3C, 0x67, 0x3E] = lit ''PGc+''"
    by (simp add: base64_char_def lit_def)
  have utf8: "toString_utf8 [0x3C, 0x67, 0x3E] = lit ''<g>''"
    by (simp add: toString_utf8_def utf8_idle_def utf8_start_def utf16_units_def lit_def)
  have uri: "number_toString 1700000000000 @ lit ''.pdf'' = lit ''1700000000000.pdf''"
    by (simp add: number_toString_def digits_of_boot lit_def)
  from ok obtain r1 where r1: "?call Png = Inr r1" by blast
  from ok obtain r2 where r2: "?call Pdf = Inr r2" by blast
  from ok obtain r3 where r3: "?call Svg = Inr r3" by blast
  from render_mermaid_reply_shape [OF r1] obtain o1
    where "fst (generateDiagram (mem_host drawing) (lit ''graph TD; A-->B;'') Png False
                  (clock boot) boot) = Inr o1"
      and s1: "r1 = [Image (lit ''image/png'') (toString_base64 o1)]"
    by auto
  then have "o1 = [0x3C, 0x67, 0x3E]" by (simp add: clock_boot generateDiagram_drawing)
  with s1 b64 have "r1 = [Image (lit ''image/png'') (lit ''PGc+'')]" by simp
  moreover from render_mermaid_reply_shape [OF r2] obtain o2
    where "fst (generateDiagram (mem_host drawing) (lit ''graph TD; A-->B;'') Pdf False
                  (clock boot) boot) = Inr o2"
      and s2: "r2 = [Resource (number_toString (clock boot) @ lit ''.pdf'')
                      (lit ''application/pdf'') (toString_base64 o2)]"
    by auto
  then have "o2 = [0x3C, 0x67, 0x3E]" by (simp add: clock_boot generateDiagram_drawing)
  with s2 b64 uri
  have "r2 = [Resource (lit ''1700000000000.pdf'') (lit ''application/pdf'') (lit ''PGc+'')]"
    by (simp add: clock_boot)
  moreover from render_mermaid_reply_shape [OF r3] obtain o3
    where "fst (generateDiagram (mem_host drawing) (lit ''graph TD; A-->B;'') Svg False
                  (clock boot) boot) = Inr o3"
      and s3: "r3 = [Text (toString_utf8 o3)]"
    by auto
  then have "o3 = [0x3C, 0x67, 0x3E]" by (simp add: clock_boot generateDiagram_drawing)
  with s3 utf8 have "r3 = [Text (lit ''<g>'')]" by simp
  ultimately show ?thesis using r1 r2 r3 by simp
qed

text \<open>
  C8. A call of \<^verbatim>\<open>render_mermaid\<close> that throws is one in which \<^verbatim>\<open>generateDiagram\<close>
  threw, and it throws an \<^verbatim>\<open>Error\<close> whose message is the Japanese prefix, a colon and a
  space, and then the message of the value \<^verbatim>\<open>generateDiagram\<close> threw when that value is
  an \<^verbatim>\<open>Error\<close>, and the Japanese placeholder when it is not. A value that is no
  \<^verbatim>\<open>Error\<close> is what carries no message here: \<^verbatim>\<open>error instanceof Error\<close> is the test the
  code makes.
\<close>

theorem render_mermaid_failure_message:
  assumes "fst (render_mermaid h diagram fmt isMarkdown w) = Inl err"
  shows "\<exists>e. fst (generateDiagram h diagram fmt isMarkdown (clock w) w) = Inl e \<and>
           err = Error (failure_prefix @ lit '': '' @
                          (case e of Error m \<Rightarrow> m | NonError \<Rightarrow> unknown_error_text))"
  using assms
  by (auto simp: render_mermaid_def Let_def split: sum.splits prod.splits if_splits)

theorem render_mermaid_failure_message_witness:
  "fst (render_mermaid (mem_host rejecting) (lit ''not a valid diagram !!!'') Png False boot)
     = Inl (Error (failure_prefix @ lit '': Parse error on line 1'')) \<and>
   fst (render_mermaid (mem_host throwing_a_string) (lit ''not a valid diagram !!!'') Png False boot)
     = Inl (Error (failure_prefix @ lit '': '' @ unknown_error_text))"
proof -
  have "\<exists>err. fst (render_mermaid (mem_host rejecting) (lit ''not a valid diagram !!!'') Png
                     False boot) = Inl err"
    by (simp add: render_mermaid_def clock_boot generateDiagram_rejecting)
  then obtain e1 where e1: "fst (render_mermaid (mem_host rejecting)
                                  (lit ''not a valid diagram !!!'') Png False boot) = Inl e1"
    by blast
  have "\<exists>err. fst (render_mermaid (mem_host throwing_a_string) (lit ''not a valid diagram !!!'')
                     Png False boot) = Inl err"
    by (simp add: render_mermaid_def clock_boot generateDiagram_throwing)
  then obtain e2 where e2: "fst (render_mermaid (mem_host throwing_a_string)
                                  (lit ''not a valid diagram !!!'') Png False boot) = Inl e2"
    by blast
  from render_mermaid_failure_message [OF e1] obtain t1
    where "fst (generateDiagram (mem_host rejecting) (lit ''not a valid diagram !!!'') Png False
                  (clock boot) boot) = Inl t1"
      and m1: "e1 = Error (failure_prefix @ lit '': '' @
                            (case t1 of Error m \<Rightarrow> m | NonError \<Rightarrow> unknown_error_text))"
    by blast
  then have "t1 = Error (lit ''Parse error on line 1'')"
    by (simp add: clock_boot generateDiagram_rejecting)
  with m1 have "e1 = Error (failure_prefix @ lit '': Parse error on line 1'')"
    by (simp add: lit_def)
  moreover from render_mermaid_failure_message [OF e2] obtain t2
    where "fst (generateDiagram (mem_host throwing_a_string) (lit ''not a valid diagram !!!'')
                  Png False (clock boot) boot) = Inl t2"
      and m2: "e2 = Error (failure_prefix @ lit '': '' @
                            (case t2 of Error m \<Rightarrow> m | NonError \<Rightarrow> unknown_error_text))"
    by blast
  then have "t2 = NonError" by (simp add: clock_boot generateDiagram_throwing)
  with m2 have "e2 = Error (failure_prefix @ lit '': '' @ unknown_error_text)" by simp
  ultimately show ?thesis using e1 e2 by simp
qed


end
